theory Spec2Isabelle
  imports Complex_Main "HOL-Library.Sublist"
begin

section \<open>Text primitives of the intent recogniser\<close>

text \<open>
  The recogniser of \<^verbatim>\<open>Backend/IntentRecognizer.py\<close> works on Python \<^verbatim>\<open>str\<close> values.
  A text is modelled as a \<^typ>\<open>string\<close> of ASCII characters: the classes below are the
  ones Python's \<^verbatim>\<open>str.lower\<close>, \<^verbatim>\<open>str.strip\<close>, \<^verbatim>\<open>str.split\<close> and the \<^verbatim>\<open>re\<close> classes
  \<^verbatim>\<open>\w\<close>, \<^verbatim>\<open>\s\<close>, \<^verbatim>\<open>[A-Z]\<close>, \<^verbatim>\<open>[a-zA-Z]\<close> have on code points below 128. A character
  from 128 on is left alone by \<open>lower_char\<close> and belongs to no class.
\<close>

definition is_upper :: "char \<Rightarrow> bool" where
  "is_upper c = (let n = (of_char c :: nat) in 65 \<le> n \<and> n \<le> 90)"

definition is_lower :: "char \<Rightarrow> bool" where
  "is_lower c = (let n = (of_char c :: nat) in 97 \<le> n \<and> n \<le> 122)"

definition is_digit :: "char \<Rightarrow> bool" where
  "is_digit c = (let n = (of_char c :: nat) in 48 \<le> n \<and> n \<le> 57)"

definition is_alpha :: "char \<Rightarrow> bool" where
  "is_alpha c = (is_upper c \<or> is_lower c)"

text \<open>\<^verbatim>\<open>\w\<close>: letters, digits and the underscore.\<close>

definition is_word :: "char \<Rightarrow> bool" where
  "is_word c = (is_alpha c \<or> is_digit c \<or> c = CHR ''_'')"

text \<open>
  \<^verbatim>\<open>\s\<close>, and the characters \<^verbatim>\<open>str.strip()\<close> and \<^verbatim>\<open>str.split()\<close> treat as whitespace:
  tab, line feed, vertical tab, form feed, carriage return, the four separators
  0x1C to 0x1F, and the space.
\<close>

definition is_space :: "char \<Rightarrow> bool" where
  "is_space c = (let n = (of_char c :: nat) in (9 \<le> n \<and> n \<le> 13) \<or> (28 \<le> n \<and> n \<le> 32))"

definition lower_char :: "char \<Rightarrow> char" where
  "lower_char c = (if is_upper c then char_of ((of_char c :: nat) + 32) else c)"

text \<open>\<^verbatim>\<open>text.lower()\<close>\<close>

definition lower :: "string \<Rightarrow> string" where
  "lower s = map lower_char s"

text \<open>\<^verbatim>\<open>text.strip()\<close>\<close>

definition strip :: "string \<Rightarrow> string" where
  "strip s = rev (dropWhile is_space (rev (dropWhile is_space s)))"

text \<open>
  \<^verbatim>\<open>text.split()\<close>: the maximal runs of non-whitespace characters, in order.
\<close>

function split_ws :: "string \<Rightarrow> string list" where
  "split_ws s =
     (case dropWhile is_space s of
        [] \<Rightarrow> []
      | c # cs \<Rightarrow> (c # takeWhile (\<lambda>x. \<not> is_space x) cs)
                  # split_ws (dropWhile (\<lambda>x. \<not> is_space x) cs))"
  by pat_completeness auto
termination
proof (relation "measure length", simp)
  fix s :: string and c cs
  assume eq: "dropWhile is_space s = c # cs"
  have "length (dropWhile (\<lambda>x. \<not> is_space x) cs) \<le> length cs"
    by (rule length_dropWhile_le)
  moreover have "length (c # cs) \<le> length s"
    unfolding eq [symmetric] by (rule length_dropWhile_le)
  ultimately show "(dropWhile (\<lambda>x. \<not> is_space x) cs, s) \<in> measure length"
    by simp
qed

declare split_ws.simps [simp del]

text \<open>\<^verbatim>\<open>' '.join(words)\<close>\<close>

fun join :: "string \<Rightarrow> string list \<Rightarrow> string" where
  "join sep [] = []"
| "join sep [w] = w"
| "join sep (w # v # ws) = w @ sep @ join sep (v # ws)"

text \<open>
  \<^verbatim>\<open>re.sub(r'\s+', ' ', text)\<close>: every maximal run of whitespace becomes one space.
\<close>

function collapse_ws :: "string \<Rightarrow> string" where
  "collapse_ws [] = []"
| "collapse_ws (c # cs) =
     (if is_space c then CHR '' '' # collapse_ws (dropWhile is_space cs)
      else c # collapse_ws cs)"
  by pat_completeness auto
termination
  by (relation "measure length") (auto simp: less_Suc_eq_le length_dropWhile_le)

text \<open>
  \<^verbatim>\<open>re.sub(r'[^\w\s]', ' ', text)\<close>: every character that is neither a word character
  nor whitespace becomes a space.
\<close>

definition replace_punct :: "string \<Rightarrow> string" where
  "replace_punct s = map (\<lambda>c. if is_word c \<or> is_space c then c else CHR '' '') s"

text \<open>
  \<^verbatim>\<open>_preprocess_text\<close> (lines 419-425): lower-case and strip, replace punctuation,
  collapse whitespace, keep the words longer than two characters, join with a space.
\<close>

definition preprocess_text :: "string \<Rightarrow> string" where
  "preprocess_text text =
     (let text1 = strip (lower text);
          text2 = replace_punct text1;
          text3 = collapse_ws text2;
          words = filter (\<lambda>w. length w > 2) (split_ws text3)
      in join '' '' words)"

text \<open>\<^verbatim>\<open>trigger in clean_text\<close>: the substring test of Python.\<close>

fun is_substring :: "string \<Rightarrow> string \<Rightarrow> bool" where
  "is_substring t [] = (t = [])"
| "is_substring t (c # cs) = (prefix t (c # cs) \<or> is_substring t cs)"

section \<open>Regular expressions with backtracking\<close>

text \<open>
  The patterns the recogniser hands to \<^verbatim>\<open>re.search\<close> and \<^verbatim>\<open>re.findall\<close> are kept as data.
  \<open>Cls\<close> is a one-character class, \<open>Star\<close> the greedy and \<open>StarL\<close> the lazy repetition,
  \<open>Opt\<close> the greedy \<^verbatim>\<open>?\<close>, \<open>Grp\<close> the capturing group (every pattern here has at most
  one), \<open>Bnd\<close> is \<^verbatim>\<open>\b\<close> and \<open>Eos\<close> is \<^verbatim>\<open>$\<close>.
\<close>

datatype rx =
    Eps
  | Cls "char \<Rightarrow> bool"
  | Cat rx rx
  | Alt rx rx
  | Opt rx
  | Star rx
  | StarL rx
  | Grp rx
  | Bnd
  | Eos

text \<open>
  A matcher state: the character before the current position (none at the start of the
  text), the text that remains, and what group 1 has captured so far.
\<close>

type_synonym mstate = "char option \<times> string \<times> string option"

definition remaining :: "mstate \<Rightarrow> string" where
  "remaining st = fst (snd st)"

definition shorter :: "mstate \<Rightarrow> mstate \<Rightarrow> bool" where
  "shorter st st' = (length (remaining st') < length (remaining st))"

text \<open>
  \<^verbatim>\<open>\b\<close> holds where exactly one of the two neighbours is a word character; the start
  and the end of the text count as non-word.
\<close>

definition at_boundary :: "char option \<Rightarrow> string \<Rightarrow> bool" where
  "at_boundary p r =
     ((case p of None \<Rightarrow> False | Some c \<Rightarrow> is_word c)
      \<noteq> (case r of [] \<Rightarrow> False | c # _ \<Rightarrow> is_word c))"

text \<open>
  \<open>ms r st\<close> lists every way \<open>r\<close> can match at \<open>st\<close>, in the order in which a
  backtracking matcher tries them: the head of the list is the match \<^verbatim>\<open>re\<close> reports.
  A repetition goes on only after an iteration that consumed input. \<^verbatim>\<open>$\<close> holds at
  the end of the text and before a final line feed.
\<close>

function (sequential) ms :: "rx \<Rightarrow> mstate \<Rightarrow> mstate list" where
  "ms Eps st = [st]"
| "ms (Cls P) (p, [], g) = []"
| "ms (Cls P) (p, c # cs, g) = (if P c then [(Some c, cs, g)] else [])"
| "ms (Cat a b) st = concat (map (ms b) (ms a st))"
| "ms (Alt a b) st = ms a st @ ms b st"
| "ms (Opt a) st = ms a st @ [st]"
| "ms (Star a) st = concat (map (ms (Star a)) (filter (shorter st) (ms a st))) @ [st]"
| "ms (StarL a) st = st # concat (map (ms (StarL a)) (filter (shorter st) (ms a st)))"
| "ms (Grp a) (p, r, g) =
     map (\<lambda>(p', r', g'). (p', r', Some (take (length r - length r') r))) (ms a (p, r, g))"
| "ms Bnd (p, r, g) = (if at_boundary p r then [(p, r, g)] else [])"
| "ms Eos (p, r, g) = (if r = [] \<or> r = [CHR 0x0A] then [(p, r, g)] else [])"
  by pat_completeness auto
termination
  by (relation "inv_image (less_than <*lex*> less_than) (\<lambda>(r, st). (size r, length (remaining st)))")
     (auto simp: shorter_def)

definition seq :: "rx list \<Rightarrow> rx" where
  "seq rs = foldr Cat rs Eps"

fun alts :: "rx list \<Rightarrow> rx" where
  "alts [] = Eps"
| "alts [r] = r"
| "alts (r # rs) = Alt r (alts rs)"

definition plus :: "rx \<Rightarrow> rx" where
  "plus r = Cat r (Star r)"

definition plus_lazy :: "rx \<Rightarrow> rx" where
  "plus_lazy r = Cat r (StarL r)"

text \<open>A literal, and a literal under \<^verbatim>\<open>re.IGNORECASE\<close>.\<close>

definition lit :: "string \<Rightarrow> rx" where
  "lit w = seq (map (\<lambda>c. Cls (\<lambda>x. x = c)) w)"

definition lit_nocase :: "string \<Rightarrow> rx" where
  "lit_nocase w = seq (map (\<lambda>c. Cls (\<lambda>x. lower_char x = lower_char c)) w)"

text \<open>
  \<^verbatim>\<open>re.search\<close>: the first match at the leftmost position that has one.
\<close>

fun search_from :: "rx \<Rightarrow> char option \<Rightarrow> string \<Rightarrow> mstate option" where
  "search_from r p [] = (case ms r (p, [], None) of [] \<Rightarrow> None | m # _ \<Rightarrow> Some m)"
| "search_from r p (c # cs) =
     (case ms r (p, c # cs, None) of
        [] \<Rightarrow> search_from r (Some c) cs
      | m # _ \<Rightarrow> Some m)"

definition re_search :: "rx \<Rightarrow> string \<Rightarrow> mstate option" where
  "re_search r s = search_from r None s"

text \<open>
  \<^verbatim>\<open>match.group(1)\<close>. In the two patterns that have a group, the group is on every
  path through the pattern.
\<close>

definition group1 :: "mstate \<Rightarrow> string" where
  "group1 m = (case snd (snd m) of None \<Rightarrow> [] | Some g \<Rightarrow> g)"

text \<open>
  \<^verbatim>\<open>re.findall\<close> for a pattern without a group and without an empty match: the matched
  texts, left to right, each search starting where the previous match ended. \<open>skip\<close>
  counts the characters of the last match still to be passed.
\<close>

fun findall_from :: "rx \<Rightarrow> nat \<Rightarrow> char option \<Rightarrow> string \<Rightarrow> string list" where
  "findall_from r skip p [] = []"
| "findall_from r skip p (c # cs) =
     (if 0 < skip then findall_from r (skip - 1) (Some c) cs
      else case ms r (p, c # cs, None) of
             [] \<Rightarrow> findall_from r 0 (Some c) cs
           | m # _ \<Rightarrow>
               (let n = length (c # cs) - length (remaining m)
                in take n (c # cs) # findall_from r (n - 1) (Some c) cs))"

definition re_findall :: "rx \<Rightarrow> string \<Rightarrow> string list" where
  "re_findall r s = findall_from r 0 None s"

section \<open>Entity resolver\<close>

text \<open>
  Line 474:
  \<^verbatim>\<open>\b(?:in|at|for|near|around)\s+([\w\s]+?)(?:\s+(?:please|thanks|thank you|now))?$\<close>
\<close>

definition location_rx :: rx where
  "location_rx =
     seq [Bnd,
          alts (map lit [''in'', ''at'', ''for'', ''near'', ''around'']),
          plus (Cls is_space),
          Grp (plus_lazy (Cls (\<lambda>c. is_word c \<or> is_space c))),
          Opt (seq [plus (Cls is_space),
                    alts (map lit [''please'', ''thanks'', ''thank you'', ''now''])]),
          Eos]"

text \<open>Line 486: \<^verbatim>\<open>\b[A-Z][a-zA-Z]*(?:\s[A-Z][a-zA-Z]*)*\b\<close>\<close>

definition capitalized_rx :: rx where
  "capitalized_rx =
     seq [Bnd, Cls is_upper, Star (Cls is_alpha),
          Star (seq [Cls is_space, Cls is_upper, Star (Cls is_alpha)]),
          Bnd]"

text \<open>
  \<^verbatim>\<open>_extract_location\<close> (lines 468-496).
\<close>

definition extract_location :: "string \<Rightarrow> string option" where
  "extract_location text =
     (let text_lower = lower text in
      case re_search location_rx text_lower of
        Some location_match \<Rightarrow>
          (let location = strip (group1 location_match) in
           if length (split_ws location) = 1 \<and>
              lower location \<in> set [''the'', ''a'', ''an'', ''this'', ''that'', ''it'', ''today'', ''tomorrow'']
           then None
           else Some location)
      | None \<Rightarrow>
          (let capitalized_words_matches = re_findall capitalized_rx text in
           if capitalized_words_matches \<noteq> [] then
             (let filtered_locations =
                    filter (\<lambda>w. lower w \<notin> set [''today'', ''tomorrow'', ''weather'', ''forecast'',
                                                 ''temperature'', ''india''])
                      capitalized_words_matches
              in if filtered_locations \<noteq> [] then Some (join '' '' filtered_locations) else None)
           else None))"

text \<open>
  Lines 455-456, with \<^verbatim>\<open>re.IGNORECASE\<close>:
  \<^verbatim>\<open>(?:who is|what is|where is|how does|find|show me|tell me about)\s+(.+)\<close>
\<close>

definition info_rx :: rx where
  "info_rx =
     seq [alts (map lit_nocase [''who is'', ''what is'', ''where is'', ''how does'', ''find'',
                                ''show me'', ''tell me about'']),
          plus (Cls is_space),
          Grp (plus (Cls (\<lambda>c. c \<noteq> CHR 0x0A)))]"

text \<open>
  \<^verbatim>\<open>re.sub(r'\?$', '', entity)\<close>: a question mark at the end of the text, or before a
  final line feed, is removed.
\<close>

definition drop_question_mark :: "string \<Rightarrow> string" where
  "drop_question_mark s =
     (if s \<noteq> [] \<and> last s = CHR ''?'' then butlast s
      else if 2 \<le> length s \<and> last s = CHR 0x0A \<and> last (butlast s) = CHR ''?''
      then butlast (butlast s) @ [CHR 0x0A]
      else s)"

text \<open>The \<^verbatim>\<open>get_info\<close> branch of \<^verbatim>\<open>_resolve_intent\<close> (lines 452-464).\<close>

definition info_entity :: "string \<Rightarrow> string option" where
  "info_entity text =
     (case re_search info_rx text of
        None \<Rightarrow> None
      | Some info_match \<Rightarrow>
          (let entity = strip (group1 info_match);
               entity = drop_question_mark entity;
               entity = (if list_ex (\<lambda>a. prefix a (lower entity)) [''the '', ''a '', ''an '']
                         then join '' '' (tl (split_ws entity)) else entity)
           in if lower entity = ''your name'' \<or> lower entity = ''who created you''
                 \<or> lower entity = ''who made you''
              then None else Some entity))"

text \<open>The \<^verbatim>\<open>system_info\<close> branch of \<^verbatim>\<open>_resolve_intent\<close> (lines 438-446).\<close>

definition system_entity :: "string \<Rightarrow> string option" where
  "system_entity text_lower =
     (if is_substring ''what is your name'' text_lower then Some ''your name''
      else if is_substring ''who created you'' text_lower \<or> is_substring ''who made you'' text_lower
      then Some ''creator''
      else if is_substring ''what can you do'' text_lower \<or> is_substring ''your purpose'' text_lower
      then Some ''capabilities''
      else None)"

text \<open>
  \<^verbatim>\<open>_resolve_intent\<close> (lines 427-466): the label, the entity and the display label.
\<close>

definition resolve_intent :: "string \<Rightarrow> string \<Rightarrow> string \<times> string option \<times> string" where
  "resolve_intent intent text =
     (let text_lower = lower text in
      if intent = ''get_time'' then (intent, None, ''time_query'')
      else if intent = ''get_weather'' then (intent, extract_location text, ''weather_query'')
      else if intent = ''system_info'' then (intent, system_entity text_lower, ''system_query'')
      else if intent = ''greeting'' then (intent, None, ''greeting'')
      else if intent = ''exit'' then (intent, Some ''terminate'', ''exit_command'')
      else if intent = ''get_info'' then (intent, info_entity text, ''information_query'')
      else (intent, None, ''unknown''))"

section \<open>Fallback matcher\<close>

text \<open>
  \<^verbatim>\<open>self.common_patterns\<close> (lines 34-43), in the order of the dictionary.
\<close>

definition common_patterns :: "(string \<times> string list) list" where
  "common_patterns =
     [(''greeting'', [''hello'', ''hi'', ''hey'']),
      (''get_time'', [''time'', ''clock'', ''what time'']),
      (''get_weather'', [''weather'', ''forecast'', ''temperature'']),
      (''system_info'', [''who made'', ''created'', ''what are you'', ''your name'']),
      (''exit'', [''exit'', ''quit'', ''stop'', ''goodbye'', ''go to sleep'', ''shut down'',
                  ''I am done'', ''you can stop now'']),
      (''get_info'', [''who is'', ''where is'', ''what is'', ''how'', ''find'', ''show me''])]"

text \<open>
  The test of line 355: some trigger of the entry occurs in the lower-cased text.
\<close>

definition triggers_match :: "string \<Rightarrow> string \<times> string list \<Rightarrow> bool" where
  "triggers_match clean_text entry = list_ex (\<lambda>trigger. is_substring trigger clean_text) (snd entry)"

text \<open>
  \<^verbatim>\<open>_fallback_intent\<close> (lines 349-363). A confidence is a Python float; only
  comparisons and \<^verbatim>\<open>max\<close> are applied to it, which are exact, so it is a \<^typ>\<open>real\<close> here.
\<close>

definition fallback_intent :: "string \<Rightarrow> real \<Rightarrow> string \<times> string option \<times> string \<times> real" where
  "fallback_intent text confidence =
     (let clean_text = lower text in
      case find (triggers_match clean_text) common_patterns of
        Some (intent, triggers) \<Rightarrow>
          (case resolve_intent intent text of
             (i, entity, intent_type) \<Rightarrow> (i, entity, intent_type, max confidence (8 / 10)))
      | None \<Rightarrow> (''unknown'', None, ''unknown'', confidence))"

section \<open>Classifier, example store and recognition service\<close>

text \<open>
  The classifier is scikit-learn's pipeline, which is not part of the repository: its
  three methods are parameters. Each may raise. \<^verbatim>\<open>fit\<close> works in place, so it returns
  the object as it left it together with the exception, if any.
\<close>

datatype error = FitError | PredictError | ValueError | AttributeError

record 'm classifier =
  fit :: "'m \<Rightarrow> string list \<Rightarrow> string list \<Rightarrow> 'm \<times> error option"
  predict :: "'m \<Rightarrow> string \<Rightarrow> error + string"
  predict_proba :: "'m \<Rightarrow> string \<Rightarrow> error + real list"

text \<open>
  The two tables of lines 55-74. A row's \<^verbatim>\<open>id\<close> is its position; rows are kept in the
  order of insertion, which is the order of their timestamps.
\<close>

record training_row =
  tr_text :: string
  tr_intent :: string
  tr_source :: string

record query_row =
  q_text :: string
  q_predicted_intent :: "string option"
  q_correct_intent :: "string option"
  q_confidence :: "real option"

text \<open>
  The attributes of \<^verbatim>\<open>IntentRecognizer\<close> that change, the two tables, and the pickled
  model on disk. Statements on the open connection and the write of the model file are
  taken to succeed.
\<close>

record 'm recognizer =
  model :: "'m option"
  is_trained :: bool
  training_data :: "training_row list"
  queries :: "query_row list"
  model_file :: "'m option"

definition confidence_threshold :: real where
  "confidence_threshold = 6 / 10"

definition min_samples_per_class :: nat where
  "min_samples_per_class = 3"

text \<open>\<^verbatim>\<open>_get_training_data\<close> (lines 120-130): the texts and the labels, as two columns.\<close>

definition get_training_data :: "'m recognizer \<Rightarrow> string list \<times> string list" where
  "get_training_data s = (map tr_text (training_data s), map tr_intent (training_data s))"

text \<open>Line 136: \<^verbatim>\<open>not texts or len(set(labels)) < 2\<close>\<close>

definition insufficient_data :: "string list \<Rightarrow> string list \<Rightarrow> bool" where
  "insufficient_data texts labels = (texts = [] \<or> length (remdups labels) < 2)"

text \<open>Lines 143-145: some label of the \<^verbatim>\<open>Counter\<close> has too few examples.\<close>

definition sparse_class :: "string list \<Rightarrow> bool" where
  "sparse_class labels =
     list_ex (\<lambda>intent. count_list labels intent < min_samples_per_class) (remdups labels)"

text \<open>
  \<^verbatim>\<open>_train_model\<close> (lines 132-159). Without a model object, \<^verbatim>\<open>self.model.fit\<close> raises
  and the handler of line 156 runs.
\<close>

definition train_model :: "'m classifier \<Rightarrow> 'm recognizer \<Rightarrow> 'm recognizer \<times> bool" where
  "train_model K s =
     (case get_training_data s of (texts, labels) \<Rightarrow>
        if insufficient_data texts labels then (s\<lparr>is_trained := False\<rparr>, False)
        else if sparse_class labels then (s\<lparr>is_trained := False\<rparr>, False)
        else (case model s of
                None \<Rightarrow> (s\<lparr>is_trained := False\<rparr>, False)
              | Some m \<Rightarrow>
                  (case fit K m texts labels of
                     (m', Some e) \<Rightarrow> (s\<lparr>model := Some m', is_trained := False\<rparr>, False)
                   | (m', None) \<Rightarrow> (s\<lparr>model := Some m', is_trained := True\<rparr>, True))))"

text \<open>\<^verbatim>\<open>_save_model\<close> (lines 169-176)\<close>

definition save_model :: "'m recognizer \<Rightarrow> 'm recognizer" where
  "save_model s = s\<lparr>model_file := model s\<rparr>"

text \<open>\<^verbatim>\<open>_train_and_save_model\<close> (lines 161-167)\<close>

definition train_and_save_model :: "'m classifier \<Rightarrow> 'm recognizer \<Rightarrow> 'm recognizer" where
  "train_and_save_model K s =
     (case train_model K s of (s', ok) \<Rightarrow> if ok then save_model s' else s')"

text \<open>\<^verbatim>\<open>_add_single_training_example_to_db\<close> (lines 189-207)\<close>

definition add_single_training_example_to_db ::
  "'m recognizer \<Rightarrow> string \<Rightarrow> string \<Rightarrow> string \<Rightarrow> 'm recognizer \<times> bool" where
  "add_single_training_example_to_db s text intent source =
     (let clean_text = preprocess_text text in
      if clean_text = [] \<or> strip intent = [] then (s, False)
      else (s\<lparr>training_data := training_data s @
                 [\<lparr>tr_text = clean_text, tr_intent = lower intent, tr_source = source\<rparr>]\<rparr>, True))"

text \<open>
  \<^verbatim>\<open>add_training_example\<close> (lines 275-301): the two \<^verbatim>\<open>SELECT\<close>s count the distinct
  labels and the rows of each label.
\<close>

definition add_training_example ::
  "'m classifier \<Rightarrow> 'm recognizer \<Rightarrow> string \<Rightarrow> string \<Rightarrow> string \<Rightarrow> 'm recognizer \<times> bool" where
  "add_training_example K s text intent source =
     (case add_single_training_example_to_db s text intent source of (s1, success) \<Rightarrow>
        if success then
          (let labels = map tr_intent (training_data s1);
               distinct_intents = length (remdups labels);
               intent_counts = map (\<lambda>l. (l, count_list labels l)) (remdups labels);
               all_intents_have_min =
                 list_all (\<lambda>(l, count). min_samples_per_class \<le> count) intent_counts
           in if 2 \<le> distinct_intents \<and> all_intents_have_min
              then (train_and_save_model K s1, True)
              else (s1, True))
        else (s1, False))"

text \<open>\<^verbatim>\<open>_log_query\<close> (lines 365-374)\<close>

definition log_query ::
  "'m recognizer \<Rightarrow> string \<Rightarrow> string option \<Rightarrow> real option \<Rightarrow> 'm recognizer" where
  "log_query s text predicted_intent confidence =
     s\<lparr>queries := queries s @
          [\<lparr>q_text = text, q_predicted_intent = predicted_intent,
            q_correct_intent = None, q_confidence = confidence\<rparr>]\<rparr>"

text \<open>\<^verbatim>\<open>max(probas)\<close>, which raises on an empty sequence.\<close>

definition max_list :: "real list \<Rightarrow> error + real" where
  "max_list xs = (case xs of [] \<Rightarrow> Inl ValueError | x # ys \<Rightarrow> Inr (fold max ys x))"

text \<open>
  The body of the \<^verbatim>\<open>try\<close> of \<^verbatim>\<open>predict_intent\<close> up to the log (lines 320-337): the
  result, or the exception that leaves the block.
\<close>

definition classify ::
  "'m classifier \<Rightarrow> 'm recognizer \<Rightarrow> string \<Rightarrow> string \<Rightarrow>
   error + (string \<times> string option \<times> string \<times> real)" where
  "classify K s text clean_text =
     (case (is_trained s, model s) of
        (True, Some m) \<Rightarrow>
          (case predict K m clean_text of
             Inl e \<Rightarrow> Inl e
           | Inr predicted_intent \<Rightarrow>
               (case predict_proba K m clean_text of
                  Inl e \<Rightarrow> Inl e
                | Inr probas \<Rightarrow>
                    (case max_list probas of
                       Inl e \<Rightarrow> Inl e
                     | Inr confidence \<Rightarrow>
                         if confidence < confidence_threshold
                         then Inr (fallback_intent text confidence)
                         else (case resolve_intent predicted_intent text of
                                 (i, entity, intent_type) \<Rightarrow>
                                   Inr (i, entity, intent_type, confidence)))))
      | _ \<Rightarrow> Inr (fallback_intent text 0))"

text \<open>\<^verbatim>\<open>predict_intent\<close> (lines 303-347)\<close>

definition predict_intent ::
  "'m classifier \<Rightarrow> 'm recognizer \<Rightarrow> string \<Rightarrow>
   'm recognizer \<times> (string \<times> string option \<times> string \<times> real)" where
  "predict_intent K s text =
     (if strip text = [] then
        (log_query s text (Some ''unknown'') (Some 0), (''unknown'', None, ''unknown'', 0))
      else
        (let clean_text = preprocess_text text in
         if clean_text = [] then
           (log_query s text (Some ''unknown'') (Some 0), (''unknown'', None, ''unknown'', 0))
         else
           (case classify K s text clean_text of
              Inr (predicted_intent, entity, intent_type, confidence) \<Rightarrow>
                (log_query s text (Some predicted_intent) (Some confidence),
                 (predicted_intent, entity, intent_type, confidence))
            | Inl e \<Rightarrow>
                (log_query s text (Some ''error'') (Some 0), fallback_intent text 0))))"




text \<open>The four components of a recognition result.\<close>

definition result_intent :: "string \<times> string option \<times> string \<times> real \<Rightarrow> string" where
  "result_intent r = fst r"

definition result_confidence :: "string \<times> string option \<times> string \<times> real \<Rightarrow> real" where
  "result_confidence r = snd (snd (snd r))"

section \<open>Example classifiers and recogniser states\<close>

text \<open>A classifier whose every method raises, and one that always answers the same.\<close>

definition raising_classifier :: "unit classifier" where
  "raising_classifier =
     \<lparr>fit = (\<lambda>m texts labels. (m, Some FitError)),
      predict = (\<lambda>m x. Inl PredictError),
      predict_proba = (\<lambda>m x. Inl PredictError)\<rparr>"

definition constant_classifier :: "string \<Rightarrow> real list \<Rightarrow> unit classifier" where
  "constant_classifier label probas =
     \<lparr>fit = (\<lambda>m texts labels. (m, None)),
      predict = (\<lambda>m x. Inr label),
      predict_proba = (\<lambda>m x. Inr probas)\<rparr>"

definition example_row :: "string \<Rightarrow> string \<Rightarrow> training_row" where
  "example_row text intent = \<lparr>tr_text = text, tr_intent = intent, tr_source = ''initial''\<rparr>"

text \<open>A recogniser that has loaded a model from disk, over a given example store.\<close>

definition loaded_recognizer :: "training_row list \<Rightarrow> unit recognizer" where
  "loaded_recognizer rows =
     \<lparr>model = Some (), is_trained = True, training_data = rows, queries = [],
      model_file = Some ()\<rparr>"

text \<open>A recogniser without a classifier.\<close>

definition untrained_recognizer :: "unit recognizer" where
  "untrained_recognizer =
     \<lparr>model = None, is_trained = False, training_data = [], queries = [], model_file = None\<rparr>"

text \<open>One label only; and two labels, the second with one example less than required.\<close>

definition one_label_rows :: "training_row list" where
  "one_label_rows =
     [example_row ''hello there'' ''greeting'', example_row ''good morning'' ''greeting'',
      example_row ''howdy'' ''greeting'']"

definition sparse_rows :: "training_row list" where
  "sparse_rows =
     one_label_rows @ [example_row ''current time'' ''get_time'', example_row ''tell the time'' ''get_time'']"

section \<open>Predicates used in the proofs\<close>

text \<open>A token of \<^verbatim>\<open>split()\<close>: not empty, no whitespace.\<close>

definition tok :: "string \<Rightarrow> bool" where
  "tok w = (w \<noteq> [] \<and> (\<forall>c\<in>set w. \<not> is_space c))"

text \<open>What the characters and the words of a normalised text look like.\<close>

definition norm_char :: "char \<Rightarrow> bool" where
  "norm_char c = (lower_char c = c \<and> (is_word c \<or> is_space c))"

definition norm_word :: "string \<Rightarrow> bool" where
  "norm_word w = (2 < length w \<and> (\<forall>c\<in>set w. lower_char c = c \<and> is_word c \<and> \<not> is_space c))"

text \<open>Some trigger of the fallback table occurs in the lower-cased text.\<close>

definition trigger_found :: "string \<Rightarrow> bool" where
  "trigger_found text = list_ex (triggers_match (lower text)) common_patterns"

text \<open>
  An exception leaves the \<^verbatim>\<open>try\<close> block of \<^verbatim>\<open>predict_intent\<close>: the text got past the
  two early returns and the classification raised.
\<close>

definition classification_raises :: "'m classifier \<Rightarrow> 'm recognizer \<Rightarrow> string \<Rightarrow> bool" where
  "classification_raises K s text =
     (strip text \<noteq> [] \<and> preprocess_text text \<noteq> []
      \<and> isl (classify K s text (preprocess_text text)))"



section \<open>The text normaliser\<close>


lemma of_char_lower_char: "is_upper c \<Longrightarrow> of_char (lower_char c) = (of_char c :: nat) + 32"
  by (simp add: lower_char_def is_upper_def Let_def)

lemma lower_char_not_upper: "\<not> is_upper (lower_char c)"
  by (cases "is_upper c") (simp_all add: lower_char_def is_upper_def Let_def)

lemma lower_char_idem: "lower_char (lower_char c) = lower_char c"
  using lower_char_not_upper [of c] by (simp add: lower_char_def)

lemma is_space_lower_char: "is_space (lower_char c) = is_space c"
  by (cases "is_upper c") (auto simp add: lower_char_def is_upper_def is_space_def Let_def)

lemma lower_char_space: "lower_char (CHR '' '') = CHR '' ''"
  by (simp add: lower_char_def is_upper_def)

lemma is_space_space: "is_space (CHR '' '')"
  by (simp add: is_space_def)

lemma split_ws_Nil: "split_ws [] = []"
  by (simp add: split_ws.simps)

lemma split_ws_space: "is_space c \<Longrightarrow> split_ws (c # s) = split_ws s"
  by (subst split_ws.simps, subst (2) split_ws.simps) simp

lemma split_ws_dropWhile: "split_ws (dropWhile is_space s) = split_ws s"
  by (induction s) (simp_all add: split_ws_space)

lemma split_ws_tok:
  assumes "tok w" "r = [] \<or> is_space (hd r)"
  shows "split_ws (w @ r) = w # split_ws r"
proof -
  from assms(1) obtain c cs where w: "w = c # cs" and c: "\<not> is_space c"
    and cs: "\<forall>x\<in>set cs. \<not> is_space x"
    by (cases w) (auto simp: tok_def)
  have tw: "takeWhile (\<lambda>x. \<not> is_space x) (cs @ r) = cs"
    using cs assms(2) by (cases r) (auto simp: takeWhile_append2 takeWhile_eq_all_conv)
  have dw: "dropWhile (\<lambda>x. \<not> is_space x) (cs @ r) = r"
    using cs assms(2) by (cases r) (auto simp: dropWhile_append2)
  show ?thesis
    by (subst split_ws.simps) (simp add: w c tw dw)
qed

lemma join_Cons: "join sep (w # ws) = (if ws = [] then w else w @ sep @ join sep ws)"
  by (cases ws) simp_all

lemma join_hd_space: "ws \<noteq> [] \<Longrightarrow> \<forall>w\<in>set ws. tok w \<Longrightarrow> \<not> is_space (hd (join sep ws))"
  by (cases ws) (auto simp: join_Cons tok_def hd_append)

lemma split_ws_join: "\<forall>w\<in>set ws. tok w \<Longrightarrow> split_ws (join '' '' ws) = ws"
proof (induction ws)
  case Nil
  then show ?case by (simp add: split_ws_Nil)
next
  case (Cons w ws)
  show ?case
  proof (cases "ws = []")
    case True
    then show ?thesis using Cons.prems split_ws_tok [of w "[]"] by (simp add: split_ws_Nil)
  next
    case False
    have "split_ws (w @ CHR '' '' # join '' '' ws) = w # split_ws (CHR '' '' # join '' '' ws)"
      using Cons.prems by (intro split_ws_tok) (simp_all add: is_space_space)
    then show ?thesis using Cons False by (simp add: join_Cons split_ws_space is_space_space)
  qed
qed

lemma collapse_ws_tok:
  assumes "\<forall>c\<in>set w. \<not> is_space c"
  shows "collapse_ws (w @ r) = w @ collapse_ws r"
  using assms by (induction w) simp_all

lemma collapse_ws_join: "\<forall>w\<in>set ws. tok w \<Longrightarrow> collapse_ws (join '' '' ws) = join '' '' ws"
proof (induction ws)
  case Nil
  then show ?case by simp
next
  case (Cons w ws)
  show ?case
  proof (cases "ws = []")
    case True
    then show ?thesis using Cons.prems collapse_ws_tok [of w "[]"] by (simp add: tok_def)
  next
    case False
    from False Cons.prems have hd: "\<not> is_space (hd (join '' '' ws))"
      by (intro join_hd_space) simp_all
    from False Cons.prems have ne: "join '' '' ws \<noteq> []"
      by (cases ws) (auto simp: join_Cons tok_def)
    from hd ne have dw: "dropWhile is_space (join '' '' ws) = join '' '' ws"
      by (cases "join '' '' ws") simp_all
    have "collapse_ws (w @ CHR '' '' # join '' '' ws) = w @ collapse_ws (CHR '' '' # join '' '' ws)"
      using Cons.prems by (intro collapse_ws_tok) (simp add: tok_def)
    then show ?thesis using Cons False dw by (simp add: join_Cons is_space_space)
  qed
qed

lemma join_ne: "ws \<noteq> [] \<Longrightarrow> \<forall>w\<in>set ws. tok w \<Longrightarrow> join sep ws \<noteq> []"
  by (cases ws) (auto simp: join_Cons tok_def)

lemma join_last_space:
  "ws \<noteq> [] \<Longrightarrow> \<forall>w\<in>set ws. tok w \<Longrightarrow> \<not> is_space (last (join '' '' ws))"
proof (induction ws)
  case Nil
  then show ?case by simp
next
  case (Cons w ws)
  show ?case
  proof (cases "ws = []")
    case True
    with Cons.prems show ?thesis by (simp add: tok_def)
  next
    case False
    with Cons.prems have "join '' '' ws \<noteq> []" by (intro join_ne) simp_all
    with Cons False show ?thesis by (simp add: join_Cons)
  qed
qed

lemma dropWhile_id: "s = [] \<or> \<not> P (hd s) \<Longrightarrow> dropWhile P s = s"
  by (cases s) auto

lemma strip_id:
  assumes "s = [] \<or> (\<not> is_space (hd s) \<and> \<not> is_space (last s))"
  shows "strip s = s"
proof -
  have d1: "dropWhile is_space s = s"
    using assms by (intro dropWhile_id) auto
  have d2: "dropWhile is_space (rev s) = rev s"
    using assms by (intro dropWhile_id) (auto simp: hd_rev)
  show ?thesis by (simp add: strip_def d1 d2)
qed

lemma strip_join: "\<forall>w\<in>set ws. tok w \<Longrightarrow> strip (join '' '' ws) = join '' '' ws"
proof (cases "ws = []")
  case True
  then show ?thesis by (simp add: strip_def)
next
  case False
  assume "\<forall>w\<in>set ws. tok w"
  with False show ?thesis
    by (intro strip_id) (simp add: join_hd_space join_last_space)
qed

lemma split_ws_Cons:
  "dropWhile is_space s = c # cs \<Longrightarrow>
   split_ws s = (c # takeWhile (\<lambda>x. \<not> is_space x) cs) # split_ws (dropWhile (\<lambda>x. \<not> is_space x) cs)"
  by (subst split_ws.simps) simp

lemma split_ws_empty:
  assumes "dropWhile is_space s = []"
  shows "split_ws s = []"
  by (subst split_ws.simps) (simp only: assms list.case)

lemma split_ws_toks: "w \<in> set (split_ws s) \<Longrightarrow> tok w \<and> set w \<subseteq> set s"
proof (induction s arbitrary: w rule: split_ws.induct)
  case (1 s)
  show ?case
  proof (cases "dropWhile is_space s")
    case Nil
    with "1.prems" show ?thesis by (simp add: split_ws_empty)
  next
    case (Cons c cs)
    from Cons have c: "\<not> is_space c" using hd_dropWhile [of is_space s] by auto
    have "set (dropWhile is_space s) \<subseteq> set s" by (auto dest: set_dropWhileD)
    then have sub: "set (c # cs) \<subseteq> set s" by (simp only: Cons)
    from "1.prems" have
      "w = c # takeWhile (\<lambda>x. \<not> is_space x) cs \<or> w \<in> set (split_ws (dropWhile (\<lambda>x. \<not> is_space x) cs))"
      by (simp add: split_ws_Cons [OF Cons])
    then show ?thesis
    proof
      assume w: "w = c # takeWhile (\<lambda>x. \<not> is_space x) cs"
      have "set (takeWhile (\<lambda>x. \<not> is_space x) cs) \<subseteq> set cs" by (auto dest: set_takeWhileD)
      moreover have "\<forall>x\<in>set (takeWhile (\<lambda>x. \<not> is_space x) cs). \<not> is_space x" by (auto dest: set_takeWhileD)
      ultimately show ?thesis using sub w c by (auto simp: tok_def)
    next
      assume "w \<in> set (split_ws (dropWhile (\<lambda>x. \<not> is_space x) cs))"
      from "1.IH" [OF Cons this] have "tok w" and "set w \<subseteq> set (dropWhile (\<lambda>x. \<not> is_space x) cs)" by auto
      moreover have "set (dropWhile (\<lambda>x. \<not> is_space x) cs) \<subseteq> set cs" by (auto dest: set_dropWhileD)
      ultimately show ?thesis using sub by auto
    qed
  qed
qed

lemma set_collapse_ws: "set (collapse_ws s) \<subseteq> insert (CHR '' '') (set s)"
proof (induction s rule: collapse_ws.induct)
  case 1
  then show ?case by simp
next
  case (2 c cs)
  have "set (dropWhile is_space cs) \<subseteq> set cs" by (auto dest: set_dropWhileD)
  with 2 show ?case by (cases "is_space c") auto
qed


lemma lower_fixed: "\<forall>c\<in>set (lower s). lower_char c = c"
  by (simp add: lower_def lower_char_idem)

lemma set_strip: "set (strip s) \<subseteq> set s"
proof -
  have "set (dropWhile is_space (rev (dropWhile is_space s))) \<subseteq> set (rev (dropWhile is_space s))"
    by (auto dest: set_dropWhileD)
  also have "\<dots> \<subseteq> set s" by (auto dest: set_dropWhileD)
  finally show ?thesis by (simp add: strip_def)
qed

lemma norm_char_space: "norm_char (CHR '' '')"
  by (simp add: norm_char_def lower_char_space is_space_space)

lemma replace_punct_norm:
  assumes "\<forall>c\<in>set s. lower_char c = c"
  shows "\<forall>c\<in>set (replace_punct s). norm_char c"
  using assms by (auto simp: replace_punct_def norm_char_def lower_char_space is_space_space)

lemma preprocess_chars:
  "\<forall>c\<in>set (collapse_ws (replace_punct (strip (lower s)))). norm_char c"
proof -
  have "\<forall>c\<in>set (strip (lower s)). lower_char c = c"
    using lower_fixed [of s] set_strip [of "lower s"] by auto
  then have "\<forall>c\<in>set (replace_punct (strip (lower s))). norm_char c"
    by (rule replace_punct_norm)
  then show ?thesis
    using set_collapse_ws [of "replace_punct (strip (lower s))"] norm_char_space by auto
qed

lemma norm_word_tok: "norm_word w \<Longrightarrow> tok w"
  by (auto simp: norm_word_def tok_def)

lemma preprocess_words:
  "\<forall>w\<in>set (filter (\<lambda>w. 2 < length w) (split_ws (collapse_ws (replace_punct (strip (lower s)))))). norm_word w"
proof
  fix w
  assume "w \<in> set (filter (\<lambda>w. 2 < length w) (split_ws (collapse_ws (replace_punct (strip (lower s))))))"
  then have len: "2 < length w" and mem: "w \<in> set (split_ws (collapse_ws (replace_punct (strip (lower s)))))"
    by simp_all
  from split_ws_toks [OF mem] have t: "tok w"
    and sub: "set w \<subseteq> set (collapse_ws (replace_punct (strip (lower s))))" by simp_all
  from sub preprocess_chars [of s] have "\<forall>c\<in>set w. norm_char c" by auto
  with t len show "norm_word w" by (auto simp: norm_word_def tok_def norm_char_def)
qed

lemma lower_join: "\<forall>w\<in>set ws. norm_word w \<Longrightarrow> lower (join '' '' ws) = join '' '' ws"
proof (induction ws)
  case Nil
  then show ?case by (simp add: lower_def)
next
  case (Cons w ws)
  from Cons.prems have "map lower_char w = w"
    by (simp add: norm_word_def map_idI)
  with Cons show ?case by (simp add: join_Cons lower_def lower_char_space)
qed

lemma replace_punct_join:
  "\<forall>w\<in>set ws. norm_word w \<Longrightarrow> replace_punct (join '' '' ws) = join '' '' ws"
proof (induction ws)
  case Nil
  then show ?case by (simp add: replace_punct_def)
next
  case (Cons w ws)
  from Cons.prems have "map (\<lambda>c. if is_word c \<or> is_space c then c else CHR '' '') w = w"
    by (intro map_idI) (simp add: norm_word_def)
  with Cons show ?case by (simp add: join_Cons replace_punct_def is_space_space)
qed

lemma preprocess_join:
  assumes "\<forall>w\<in>set ws. norm_word w"
  shows "preprocess_text (join '' '' ws) = join '' '' ws"
proof -
  from assms have t: "\<forall>w\<in>set ws. tok w" by (simp add: norm_word_tok)
  from assms have f: "filter (\<lambda>w. 2 < length w) ws = ws"
    by (simp add: norm_word_def)
  show ?thesis
    by (simp add: preprocess_text_def lower_join [OF assms] strip_join [OF t]
        replace_punct_join [OF assms] collapse_ws_join [OF t] split_ws_join [OF t] f)
qed

text \<open>
  Claim C7. The text normaliser is idempotent: normalising a normalised text changes
  nothing. The normaliser lower-cases, replaces punctuation by spaces, collapses
  whitespace and drops the words of at most two characters.
\<close>

theorem preprocess_text_idempotent: "preprocess_text (preprocess_text x) = preprocess_text x"
proof -
  have "preprocess_text x =
        join '' '' (filter (\<lambda>w. 2 < length w) (split_ws (collapse_ws (replace_punct (strip (lower x))))))"
    by (simp add: preprocess_text_def)
  then show ?thesis
    using preprocess_join [OF preprocess_words [of x]] by simp
qed

theorem preprocess_text_idempotent_witness:
  "preprocess_text ''What's the WEATHER in New-York?'' = ''what the weather new york''
   \<and> preprocess_text (preprocess_text ''What's the WEATHER in New-York?'')
       = ''what the weather new york''"
proof -
  have "preprocess_text ''What's the WEATHER in New-York?'' = ''what the weather new york''"
    by code_simp
  then show ?thesis
    using preprocess_text_idempotent [of "''What's the WEATHER in New-York?''"] by simp
qed

section \<open>Texts that normalise to nothing\<close>


section \<open>The entity resolver\<close>

lemma resolve_intent_fst: "fst (resolve_intent intent text) = intent"
  by (simp add: resolve_intent_def Let_def)

text \<open>
  Claim C9. The entity resolver never changes the label: the first component of the result
  of \<^verbatim>\<open>_resolve_intent\<close> is the label it was given, whatever the text; only the entity and
  the display label are filled in.
\<close>

theorem resolve_intent_keeps_label:
  "fst (resolve_intent L text) = L
   \<and> (\<exists>entity intent_type. resolve_intent L text = (L, entity, intent_type))"
  by (simp add: resolve_intent_def Let_def)

theorem resolve_intent_keeps_label_witness:
  "resolve_intent ''exit'' ''please stop'' = (''exit'', Some ''terminate'', ''exit_command'')
   \<and> fst (resolve_intent ''open_browser'' ''open the browser'') = ''open_browser''"
proof -
  have "resolve_intent ''exit'' ''please stop'' = (''exit'', Some ''terminate'', ''exit_command'')"
    by code_simp
  then show ?thesis
    using resolve_intent_keeps_label [of "''open_browser''" "''open the browser''"] by simp
qed

text \<open>
  Backtracking at work. With two blanks after the preposition, \<^verbatim>\<open>\s+\<close> gives one back to
  the group, and the location is the empty text. A capitalised run that ends before a
  digit is cut back to the words before it, and one glued to an underscore is no match.
\<close>

lemma extract_location_backtracks:
  "extract_location ''weather in  '' = Some []
   \<and> re_findall capitalized_rx ''Hello_World New York2 and San Francisco''
       = [''New'', ''San Francisco'']"
  by code_simp








section \<open>The fallback matcher\<close>

lemma find_list_ex: "list_ex P xs \<Longrightarrow> \<exists>x. find P xs = Some x \<and> x \<in> set xs"
  by (induction xs) auto

lemma find_not_list_ex: "\<not> list_ex P xs \<Longrightarrow> find P xs = None"
  by (induction xs) auto

lemma fallback_intent_found:
  assumes "trigger_found text"
  shows "\<exists>intent entity intent_type. intent \<in> set (map fst common_patterns)
           \<and> fallback_intent text c = (intent, entity, intent_type, max c (8 / 10))"
proof -
  from assms obtain x where f: "find (triggers_match (lower text)) common_patterns = Some x"
    and m: "x \<in> set common_patterns"
    unfolding trigger_found_def by (blast dest: find_list_ex)
  obtain intent triggers where x: "x = (intent, triggers)" by (cases x)
  obtain i e t where r: "resolve_intent intent text = (i, e, t)" by (cases "resolve_intent intent text")
  from resolve_intent_fst [of intent "text"] r have "i = intent" by simp
  moreover from m x have "intent \<in> set (map fst common_patterns)" by force
  ultimately show ?thesis
    by (auto simp: fallback_intent_def Let_def f x r)
qed

lemma fallback_intent_not_found:
  "\<not> trigger_found text \<Longrightarrow> fallback_intent text c = (''unknown'', None, ''unknown'', c)"
  by (simp add: fallback_intent_def Let_def trigger_found_def find_not_list_ex)

lemma fallback_confidence:
  "trigger_found text \<Longrightarrow> result_confidence (fallback_intent text c) = max c (8 / 10)"
  using fallback_intent_found [of "text" c] by (auto simp: result_confidence_def)

lemma fallback_zero_shape:
  "(result_confidence (fallback_intent text 0) = 0 \<or> result_confidence (fallback_intent text 0) = 8 / 10)
   \<and> result_intent (fallback_intent text 0) \<in> set (''unknown'' # map fst common_patterns)"
proof (cases "trigger_found text")
  case True
  from fallback_intent_found [OF True, of 0] obtain i e t
    where "i \<in> set (map fst common_patterns)"
      and "fallback_intent text 0 = (i, e, t, max 0 (8 / 10))" by blast
  then show ?thesis
    by (simp add: result_confidence_def result_intent_def)
next
  case False
  then show ?thesis
    by (simp add: fallback_intent_not_found result_confidence_def result_intent_def)
qed

lemma prefix_set: "prefix t s \<Longrightarrow> set t \<subseteq> set s"
  by (auto simp: prefix_def)

lemma is_substring_set: "is_substring t s \<Longrightarrow> set t \<subseteq> set s"
proof (induction s)
  case Nil
  then show ?case by simp
next
  case (Cons c cs)
  then show ?case using prefix_set [of t "c # cs"] by auto
qed

lemma lower_no_upper: "c \<in> set (lower s) \<Longrightarrow> \<not> is_upper c"
  by (auto simp: lower_def lower_char_not_upper)

lemma upper_trigger_no_match:
  assumes "\<exists>c\<in>set trigger. is_upper c"
  shows "\<not> is_substring trigger (lower s)"
proof
  assume "is_substring trigger (lower s)"
  then have "set trigger \<subseteq> set (lower s)" by (rule is_substring_set)
  with assms obtain c where "c \<in> set (lower s)" "is_upper c" by auto
  then show False by (simp add: lower_no_upper)
qed

lemma i_am_done_upper: "\<exists>c\<in>set ''I am done''. is_upper c"
  by (simp add: is_upper_def)

lemma i_am_done_fallback: "fallback_intent ''I am done'' 0 = (''unknown'', None, ''unknown'', 0)"
  by code_simp

lemma i_am_done_clean: "strip ''I am done'' \<noteq> [] \<and> preprocess_text ''I am done'' \<noteq> []"
  by code_simp

section \<open>The recognition service\<close>


lemma predict_intent_ok_case:
  "strip text \<noteq> [] \<Longrightarrow> preprocess_text text \<noteq> [] \<Longrightarrow>
   classify K s text (preprocess_text text) = Inr r \<Longrightarrow>
   predict_intent K s text =
     (log_query s text (Some (result_intent r)) (Some (result_confidence r)), r)"
  by (cases r) (simp add: predict_intent_def Let_def result_intent_def result_confidence_def)

lemma predict_intent_error_case:
  "strip text \<noteq> [] \<Longrightarrow> preprocess_text text \<noteq> [] \<Longrightarrow>
   classify K s text (preprocess_text text) = Inl e \<Longrightarrow>
   predict_intent K s text =
     (log_query s text (Some ''error'') (Some 0), fallback_intent text 0)"
  by (simp add: predict_intent_def Let_def)

lemma classify_untrained:
  "\<not> is_trained s \<or> model s = None \<Longrightarrow> classify K s text clean = Inr (fallback_intent text 0)"
  by (auto simp: classify_def split: bool.splits option.splits)

lemma classify_low:
  "is_trained s \<Longrightarrow> model s = Some m \<Longrightarrow> predict K m clean = Inr l \<Longrightarrow>
   predict_proba K m clean = Inr ps \<Longrightarrow> max_list ps = Inr c \<Longrightarrow> c < confidence_threshold \<Longrightarrow>
   classify K s text clean = Inr (fallback_intent text c)"
  by (simp add: classify_def)

lemma classification_raises_iff:
  "classification_raises K s text \<longleftrightarrow>
     strip text \<noteq> [] \<and> preprocess_text text \<noteq> [] \<and> is_trained s
     \<and> (\<exists>m. model s = Some m
          \<and> (isl (predict K m (preprocess_text text))
             \<or> isl (predict_proba K m (preprocess_text text))
             \<or> predict_proba K m (preprocess_text text) = Inr []))"
  by (auto simp: classification_raises_def classify_def max_list_def
      split: bool.splits option.splits sum.splits list.splits prod.splits if_splits)

text \<open>
  Claim C10. The trigger \<^verbatim>\<open>"I am done"\<close> of the exit intent can never fire: the fallback
  matcher looks for each trigger, as written, in the lower-cased text, so a trigger with
  an upper-case letter occurs in no text. Without a trained classifier,
  \<^verbatim>\<open>predict_intent("I am done")\<close> returns the intent unknown with confidence 0.
\<close>

theorem uppercase_trigger_never_fires:
  "(\<forall>trigger s. (\<exists>c\<in>set trigger. is_upper c) \<longrightarrow> \<not> is_substring trigger (lower s))
   \<and> (\<forall>s. \<not> is_substring ''I am done'' (lower s))
   \<and> ''I am done'' \<in> set (the (map_of common_patterns ''exit''))
   \<and> (\<not> is_trained r \<or> model r = None \<longrightarrow>
        snd (predict_intent K r ''I am done'') = (''unknown'', None, ''unknown'', 0))"
proof (intro conjI allI impI)
  fix trigger s
  assume "\<exists>c\<in>set trigger. is_upper c"
  then show "\<not> is_substring trigger (lower s)" by (rule upper_trigger_no_match)
next
  fix s
  show "\<not> is_substring ''I am done'' (lower s)"
    by (rule upper_trigger_no_match [OF i_am_done_upper])
next
  show "''I am done'' \<in> set (the (map_of common_patterns ''exit''))"
    by (simp add: common_patterns_def)
next
  assume "\<not> is_trained r \<or> model r = None"
  then have "classify K r ''I am done'' (preprocess_text ''I am done'') = Inr (fallback_intent ''I am done'' 0)"
    by (auto simp: classify_def split: bool.splits option.splits)
  with i_am_done_clean show "snd (predict_intent K r ''I am done'') = (''unknown'', None, ''unknown'', 0)"
    by (simp add: predict_intent_def Let_def i_am_done_fallback)
qed

theorem uppercase_trigger_never_fires_witness:
  "(\<exists>c\<in>set ''I am done''. is_upper c)
   \<and> \<not> is_substring ''I am done'' (lower ''I am done'')
   \<and> \<not> is_trained untrained_recognizer
   \<and> snd (predict_intent raising_classifier untrained_recognizer ''I am done'')
       = (''unknown'', None, ''unknown'', 0)"
  using uppercase_trigger_never_fires [of untrained_recognizer raising_classifier] i_am_done_upper
  by (simp add: untrained_recognizer_def)



text \<open>
  Claim C4. Whenever the fallback matcher runs and some trigger occurs in the lower-cased
  raw text, the confidence of the result is the maximum of the incoming confidence and
  0.8, so at least 0.8: in \<^verbatim>\<open>_fallback_intent\<close> itself, and in \<^verbatim>\<open>predict_intent\<close> when
  the classifier is absent or untrained (incoming 0), when its confidence is under the
  threshold, and after an exception in the classification (incoming 0).
\<close>

theorem fallback_match_confidence:
  assumes found: "trigger_found text"
  shows "result_confidence (fallback_intent text c) = max c (8 / 10)
       \<and> 8 / 10 \<le> result_confidence (fallback_intent text c)
       \<and> (strip text \<noteq> [] \<and> preprocess_text text \<noteq> [] \<and> (\<not> is_trained s \<or> model s = None)
            \<longrightarrow> result_confidence (snd (predict_intent K s text)) = max 0 (8 / 10))
       \<and> (strip text \<noteq> [] \<and> preprocess_text text \<noteq> [] \<and> is_trained s \<and> model s = Some m
            \<and> predict K m (preprocess_text text) = Inr l
            \<and> predict_proba K m (preprocess_text text) = Inr ps
            \<and> max_list ps = Inr c' \<and> c' < confidence_threshold
            \<longrightarrow> result_confidence (snd (predict_intent K s text)) = max c' (8 / 10)
              \<and> 8 / 10 \<le> result_confidence (snd (predict_intent K s text)))
       \<and> (classification_raises K s text
            \<longrightarrow> result_confidence (snd (predict_intent K s text)) = max 0 (8 / 10))"
proof (intro conjI impI)
  show "result_confidence (fallback_intent text c) = max c (8 / 10)"
    by (rule fallback_confidence [OF found])
  then show "8 / 10 \<le> result_confidence (fallback_intent text c)" by simp
next
  assume a: "strip text \<noteq> [] \<and> preprocess_text text \<noteq> [] \<and> (\<not> is_trained s \<or> model s = None)"
  then have "classify K s text (preprocess_text text) = Inr (fallback_intent text 0)"
    by (intro classify_untrained) simp
  with a have "snd (predict_intent K s text) = fallback_intent text 0"
    by (simp add: predict_intent_ok_case)
  then show "result_confidence (snd (predict_intent K s text)) = max 0 (8 / 10)"
    by (simp only: fallback_confidence [OF found])
next
  assume a: "strip text \<noteq> [] \<and> preprocess_text text \<noteq> [] \<and> is_trained s \<and> model s = Some m
            \<and> predict K m (preprocess_text text) = Inr l
            \<and> predict_proba K m (preprocess_text text) = Inr ps
            \<and> max_list ps = Inr c' \<and> c' < confidence_threshold"
  then have "classify K s text (preprocess_text text) = Inr (fallback_intent text c')"
    by (simp add: classify_low [of s m K _ l ps c'])
  with a have "snd (predict_intent K s text) = fallback_intent text c'"
    by (simp add: predict_intent_ok_case)
  then show r: "result_confidence (snd (predict_intent K s text)) = max c' (8 / 10)"
    by (simp only: fallback_confidence [OF found])
  show "8 / 10 \<le> result_confidence (snd (predict_intent K s text))"
    unfolding r by simp
next
  assume "classification_raises K s text"
  then obtain e where "strip text \<noteq> []" "preprocess_text text \<noteq> []"
    "classify K s text (preprocess_text text) = Inl e"
    by (auto simp: classification_raises_def isl_def)
  then have "snd (predict_intent K s text) = fallback_intent text 0"
    by (simp add: predict_intent_error_case)
  then show "result_confidence (snd (predict_intent K s text)) = max 0 (8 / 10)"
    by (simp only: fallback_confidence [OF found])
qed

theorem fallback_match_confidence_witness:
  "trigger_found ''what time is it''
   \<and> result_confidence (fallback_intent ''what time is it'' (3 / 10)) = 8 / 10
   \<and> result_confidence (fallback_intent ''what time is it'' (9 / 10)) = 9 / 10
   \<and> result_confidence (snd (predict_intent raising_classifier untrained_recognizer ''what time is it'')) = 8 / 10
   \<and> result_confidence (snd (predict_intent (constant_classifier ''exit'' [1 / 2, 1 / 2]) (loaded_recognizer [])
        ''what time is it'')) = 8 / 10
   \<and> result_confidence (snd (predict_intent raising_classifier (loaded_recognizer []) ''what time is it'')) = 8 / 10"
proof -
  have f: "trigger_found ''what time is it''" by code_simp
  have ne: "strip ''what time is it'' \<noteq> [] \<and> preprocess_text ''what time is it'' \<noteq> []" by code_simp
  have u: "\<not> is_trained untrained_recognizer \<or> model untrained_recognizer = None"
    by (simp add: untrained_recognizer_def)
  have l: "is_trained (loaded_recognizer []) \<and> model (loaded_recognizer []) = Some ()"
    by (simp add: loaded_recognizer_def)
  have p: "predict (constant_classifier ''exit'' [1 / 2, 1 / 2]) () (preprocess_text ''what time is it'') = Inr ''exit''
     \<and> predict_proba (constant_classifier ''exit'' [1 / 2, 1 / 2]) () (preprocess_text ''what time is it'') = Inr [1 / 2, 1 / 2]"
    by (simp add: constant_classifier_def)
  have m: "max_list [1 / 2, 1 / 2] = Inr (1 / 2) \<and> (1 / 2 :: real) < confidence_threshold"
    by (simp add: max_list_def confidence_threshold_def)
  have r: "classification_raises raising_classifier (loaded_recognizer []) ''what time is it''"
    by code_simp
  show ?thesis
    using f ne u l p m r
      fallback_match_confidence [OF f, where c = "3 / 10" and s = untrained_recognizer
        and K = raising_classifier and m = "()" and l = "''exit''" and ps = "[]" and c' = 0]
      fallback_match_confidence [OF f, where c = "9 / 10" and s = "loaded_recognizer []"
        and K = "constant_classifier ''exit'' [1 / 2, 1 / 2]" and m = "()" and l = "''exit''"
        and ps = "[1 / 2, 1 / 2]" and c' = "1 / 2"]
      fallback_match_confidence [OF f, where c = 0 and s = "loaded_recognizer []"
        and K = raising_classifier and m = "()" and l = "''exit''" and ps = "[]" and c' = 0]
    by simp
qed

text \<open>
  Claim C5. An exception raised during the classification inside \<^verbatim>\<open>predict_intent\<close> is
  caught: the call logs an error row and returns what the fallback matcher gives for
  confidence 0, a result whose label is unknown or a label of the trigger table and whose
  confidence is 0 or 0.8. The model and \<^verbatim>\<open>is_trained\<close> stay as they were.
\<close>

theorem classification_error_falls_back:
  assumes "classification_raises K s text"
  shows "predict_intent K s text =
           (log_query s text (Some ''error'') (Some 0), fallback_intent text 0)
       \<and> (result_confidence (snd (predict_intent K s text)) = 0
          \<or> result_confidence (snd (predict_intent K s text)) = 8 / 10)
       \<and> result_intent (snd (predict_intent K s text)) \<in> set (''unknown'' # map fst common_patterns)
       \<and> model (fst (predict_intent K s text)) = model s
       \<and> is_trained (fst (predict_intent K s text)) = is_trained s"
proof -
  from assms obtain e where "strip text \<noteq> []" "preprocess_text text \<noteq> []"
    "classify K s text (preprocess_text text) = Inl e"
    by (auto simp: classification_raises_def isl_def)
  then have p: "predict_intent K s text =
           (log_query s text (Some ''error'') (Some 0), fallback_intent text 0)"
    by (rule predict_intent_error_case)
  show ?thesis
    using fallback_zero_shape [of "text"] by (simp add: p log_query_def)
qed

lemma what_raises: "classification_raises raising_classifier (loaded_recognizer []) ''what is that''"
  by code_simp

lemma what_fallback: "fallback_intent ''what is that'' 0 = (''get_info'', Some ''that'', ''information_query'', 8 / 10)"
  by code_simp

lemma blue_raises: "classification_raises raising_classifier (loaded_recognizer []) ''blue moon''"
  by code_simp

lemma blue_fallback: "fallback_intent ''blue moon'' 0 = (''unknown'', None, ''unknown'', 0)"
  by code_simp

theorem classification_error_falls_back_witness:
  "classification_raises raising_classifier (loaded_recognizer []) ''what is that''
   \<and> snd (predict_intent raising_classifier (loaded_recognizer []) ''what is that'')
       = (''get_info'', Some ''that'', ''information_query'', 8 / 10)
   \<and> classification_raises raising_classifier (loaded_recognizer []) ''blue moon''
   \<and> snd (predict_intent raising_classifier (loaded_recognizer []) ''blue moon'')
       = (''unknown'', None, ''unknown'', 0)"
  using classification_error_falls_back [OF what_raises] classification_error_falls_back [OF blue_raises]
    what_raises blue_raises
  by (simp add: what_fallback blue_fallback)






section \<open>Training\<close>

lemma one_label_insufficient:
  "insufficient_data (map tr_text one_label_rows) (map tr_intent one_label_rows)"
  by (simp add: insufficient_data_def one_label_rows_def example_row_def)

lemma sparse_rows_sparse: "sparse_class (map tr_intent sparse_rows)"
  by (simp add: sparse_class_def sparse_rows_def one_label_rows_def example_row_def min_samples_per_class_def)

lemma sparse_rows_not_insufficient:
  "\<not> insufficient_data (map tr_text sparse_rows) (map tr_intent sparse_rows)"
  by (simp add: insufficient_data_def sparse_rows_def one_label_rows_def example_row_def)

text \<open>
  The recogniser's own callers never see the two data failures with a trained model:
  \<^verbatim>\<open>add_training_example\<close> tests the same two conditions on the store before it trains, so
  with too little data it leaves the model and \<^verbatim>\<open>is_trained\<close> alone.
\<close>

lemma retrain_guard_iff:
  "(2 \<le> length (remdups labels)
     \<and> list_all (\<lambda>(l, count). min_samples_per_class \<le> count)
          (map (\<lambda>l. (l, count_list labels l)) (remdups labels)))
   \<longleftrightarrow> \<not> length (remdups labels) < 2 \<and> \<not> sparse_class labels"
  by (auto simp: sparse_class_def list_all_iff list_ex_iff)

lemma add_training_example_skips_training:
  assumes "add_single_training_example_to_db s text intent source = (s1, True)"
    and "insufficient_data (map tr_text (training_data s1)) (map tr_intent (training_data s1))
         \<or> sparse_class (map tr_intent (training_data s1))"
  shows "add_training_example K s text intent source = (s1, True)"
    and "model s1 = model s" and "is_trained s1 = is_trained s"
proof -
  from assms(1) have td: "training_data s1 \<noteq> []" and m: "model s1 = model s"
    and t: "is_trained s1 = is_trained s"
    by (auto simp: add_single_training_example_to_db_def Let_def split: if_splits)
  from assms(2) td have "length (remdups (map tr_intent (training_data s1))) < 2
      \<or> sparse_class (map tr_intent (training_data s1))"
    by (simp add: insufficient_data_def)
  then have "\<not> (2 \<le> length (remdups (map tr_intent (training_data s1)))
     \<and> list_all (\<lambda>(l, count). min_samples_per_class \<le> count)
          (map (\<lambda>l. (l, count_list (map tr_intent (training_data s1)) l))
             (remdups (map tr_intent (training_data s1)))))"
    unfolding retrain_guard_iff by auto
  then show "add_training_example K s text intent source = (s1, True)"
    by (auto simp: add_training_example_def assms(1) Let_def)
  show "model s1 = model s" by (rule m)
  show "is_trained s1 = is_trained s" by (rule t)
qed

text \<open>
  Claim C1. As the code has it: when \<^verbatim>\<open>_train_model\<close> fails because the store has fewer
  than two distinct labels, or because some label has fewer than
  \<^verbatim>\<open>min_samples_per_class\<close> examples, the model, the model file and the store are left
  untouched, and \<^verbatim>\<open>is_trained\<close> is set to false.
\<close>

theorem train_model_failure_resets_flag:
  assumes "insufficient_data (map tr_text (training_data s)) (map tr_intent (training_data s))
           \<or> sparse_class (map tr_intent (training_data s))"
  shows "train_model K s = (s\<lparr>is_trained := False\<rparr>, False)
         \<and> model (fst (train_model K s)) = model s
         \<and> model_file (fst (train_model K s)) = model_file s
         \<and> training_data (fst (train_model K s)) = training_data s
         \<and> \<not> is_trained (fst (train_model K s))"
  using assms by (auto simp: train_model_def get_training_data_def)

theorem train_model_failure_resets_flag_witness:
  "insufficient_data (map tr_text (training_data (loaded_recognizer one_label_rows)))
     (map tr_intent (training_data (loaded_recognizer one_label_rows)))
   \<and> train_model raising_classifier (loaded_recognizer one_label_rows)
       = ((loaded_recognizer one_label_rows)\<lparr>is_trained := False\<rparr>, False)
   \<and> sparse_class (map tr_intent (training_data (loaded_recognizer sparse_rows)))
   \<and> model (fst (train_model raising_classifier (loaded_recognizer sparse_rows))) = Some ()"
proof -
  have a: "insufficient_data (map tr_text (training_data (loaded_recognizer one_label_rows)))
     (map tr_intent (training_data (loaded_recognizer one_label_rows)))"
    by (simp add: loaded_recognizer_def one_label_insufficient)
  have b: "sparse_class (map tr_intent (training_data (loaded_recognizer sparse_rows)))"
    by (simp add: loaded_recognizer_def sparse_rows_sparse)
  from a have a': "insufficient_data (map tr_text (training_data (loaded_recognizer one_label_rows)))
     (map tr_intent (training_data (loaded_recognizer one_label_rows)))
     \<or> sparse_class (map tr_intent (training_data (loaded_recognizer one_label_rows)))" by simp
  from b have b': "insufficient_data (map tr_text (training_data (loaded_recognizer sparse_rows)))
     (map tr_intent (training_data (loaded_recognizer sparse_rows)))
     \<or> sparse_class (map tr_intent (training_data (loaded_recognizer sparse_rows)))" by simp
  show ?thesis
    using a b train_model_failure_resets_flag [OF a', of raising_classifier]
      train_model_failure_resets_flag [OF b', of raising_classifier]
    by (simp add: loaded_recognizer_def)
qed

text \<open>
  The claim as written wants \<^verbatim>\<open>is_trained\<close> to keep its value. A recogniser that has
  loaded a model is trained; after a failed training, of either kind, it is not.
\<close>

theorem train_model_keeps_flag_counterexample:
  "is_trained (loaded_recognizer one_label_rows)
   \<and> insufficient_data (map tr_text one_label_rows) (map tr_intent one_label_rows)
   \<and> \<not> is_trained (fst (train_model raising_classifier (loaded_recognizer one_label_rows)))
   \<and> is_trained (loaded_recognizer sparse_rows)
   \<and> \<not> insufficient_data (map tr_text sparse_rows) (map tr_intent sparse_rows)
   \<and> sparse_class (map tr_intent sparse_rows)
   \<and> \<not> is_trained (fst (train_model raising_classifier (loaded_recognizer sparse_rows)))"
  using one_label_insufficient sparse_rows_sparse sparse_rows_not_insufficient
  by (simp add: train_model_def get_training_data_def loaded_recognizer_def)

section \<open>Feedback\<close>








end
